theory Spec2Isabelle
  imports Main
begin

section \<open>Data model: cells, series and data frames\<close>

text \<open>
  The roster is a pandas \<open>DataFrame\<close>. A cell holds text, a boolean, an integer, or one
  of the two missing-value markers the source meets: the float \<open>NaN\<close> (what
  \<open>read_csv\<close> puts in a blank field and what \<open>df.loc[mask, new_col] = v\<close> leaves in the
  rows outside the mask) and Python's \<open>None\<close> (the default series of
  \<open>mark_attendance\<close>). Floats other than \<open>NaN\<close> are outside the model. Cells are
  dynamically typed: an assignment of a value of another type than the column's changes
  the \<open>dtype\<close> of the column and does not fail (pandas before 3.0).
\<close>

datatype cell = Str string | Bool bool | Num int | NaN | NoneV

text \<open>
  A series is indexed by row position (the default \<open>RangeIndex\<close> of a frame read from a
  file); a data frame is its number of rows, the ordered list of its column labels and
  the cell of every column at every position. Only columns listed in \<open>columns\<close> are ever
  read.
\<close>

type_synonym 'a series = "nat \<Rightarrow> 'a"

record dataframe =
  nrows :: nat
  columns :: "string list"
  data :: "string \<Rightarrow> cell series"

subsection \<open>Python's \<open>str()\<close> on a cell\<close>

definition digit_char :: "nat \<Rightarrow> char" where
  "digit_char d = ''0123456789'' ! d"

fun str_nat :: "nat \<Rightarrow> string" where
  "str_nat n = (if n < 10 then [digit_char n] else str_nat (n div 10) @ [digit_char (n mod 10)])"

declare str_nat.simps [simp del]

definition str_int :: "int \<Rightarrow> string" where
  "str_int i = (if i < 0 then ''-'' @ str_nat (nat (- i)) else str_nat (nat i))"

fun py_str :: "cell \<Rightarrow> string" where
  "py_str (Str s) = s"
| "py_str (Bool b) = (if b then ''True'' else ''False'')"
| "py_str (Num i) = str_int i"
| "py_str NaN = ''nan''"
| "py_str NoneV = ''None''"

subsection \<open>The pandas operations the source calls\<close>

text \<open>\<open>c in df.columns\<close>.\<close>

definition has_column :: "dataframe \<Rightarrow> string \<Rightarrow> bool" where
  "has_column df c = (c \<in> set (columns df))"

text \<open>\<open>df.get(c, default)\<close>: the column when the label exists, the default otherwise.\<close>

definition df_get :: "dataframe \<Rightarrow> string \<Rightarrow> cell series \<Rightarrow> cell series" where
  "df_get df c dflt = (if has_column df c then data df c else dflt)"

text \<open>
  \<open>Series.astype(str)\<close> applies \<open>str()\<close> to every element, the missing ones included
  (pandas before 3.0): \<open>None\<close> becomes the text \<open>None\<close> and \<open>NaN\<close> the text \<open>nan\<close>.
\<close>

definition astype_str :: "cell series \<Rightarrow> cell series" where
  "astype_str s = (\<lambda>i. Str (py_str (s i)))"

definition isna :: "cell \<Rightarrow> bool" where
  "isna v = (v = NaN \<or> v = NoneV)"

text \<open>\<open>Series.fillna(v)\<close> replaces the missing elements and keeps the others.\<close>

definition fillna :: "cell \<Rightarrow> cell series \<Rightarrow> cell series" where
  "fillna v s = (\<lambda>i. if isna (s i) then v else s i)"

text \<open>\<open>series == identifier\<close>, element by element, for a text identifier.\<close>

definition series_eq :: "cell series \<Rightarrow> string \<Rightarrow> bool series" where
  "series_eq s ident = (\<lambda>i. s i = Str ident)"

definition series_or :: "bool series \<Rightarrow> bool series \<Rightarrow> bool series" where
  "series_or a b = (\<lambda>i. a i \<or> b i)"

text \<open>\<open>mask.any()\<close> over the \<open>n\<close> positions of the frame.\<close>

definition series_any :: "nat \<Rightarrow> bool series \<Rightarrow> bool" where
  "series_any n m = list_ex m [0..<n]"

text \<open>
  \<open>df[c] = v\<close> with a scalar: every row of column \<open>c\<close> becomes \<open>v\<close>; a new label is
  appended to the columns.
\<close>

definition setitem :: "dataframe \<Rightarrow> string \<Rightarrow> cell \<Rightarrow> dataframe" where
  "setitem df c v =
     df\<lparr>columns := (if has_column df c then columns df else columns df @ [c]),
        data := (data df)(c := (\<lambda>i. v))\<rparr>"

text \<open>
  \<open>df.loc[mask, c] = v\<close>: the rows selected by the mask take \<open>v\<close>. On an existing column
  the other rows keep their cell; on a new label the column is created and the other
  rows are \<open>NaN\<close>.
\<close>

definition loc_set :: "dataframe \<Rightarrow> bool series \<Rightarrow> string \<Rightarrow> cell \<Rightarrow> dataframe" where
  "loc_set df msk c v =
     df\<lparr>columns := (if has_column df c then columns df else columns df @ [c]),
        data := (data df)(c := (\<lambda>i. if msk i then v
                                     else if has_column df c then data df c i else NaN))\<rparr>"

section \<open>The clock: \<open>datetime.now().isoformat()\<close>\<close>

record datetime =
  year :: nat
  month :: nat
  day :: nat
  hour :: nat
  minute :: nat
  second :: nat
  microsecond :: nat

text \<open>\<open>%0wd\<close>: decimal, padded with zeros on the left to at least \<open>w\<close> characters.\<close>

definition zpad :: "nat \<Rightarrow> nat \<Rightarrow> string" where
  "zpad w n = replicate (w - length (str_nat n)) (CHR ''0'') @ str_nat n"

text \<open>
  \<open>datetime.isoformat()\<close> of a naive datetime: \<open>YYYY-MM-DDTHH:MM:SS\<close>, followed by
  \<open>.ffffff\<close> when the microsecond is not zero.
\<close>

definition isoformat :: "datetime \<Rightarrow> string" where
  "isoformat t =
     zpad 4 (year t) @ ''-'' @ zpad 2 (month t) @ ''-'' @ zpad 2 (day t) @ ''T'' @
     zpad 2 (hour t) @ '':'' @ zpad 2 (minute t) @ '':'' @ zpad 2 (second t) @
     (if microsecond t \<noteq> 0 then ''.'' @ zpad 6 (microsecond t) else [])"

text \<open>
  The ranges a Python \<open>datetime\<close> keeps its fields in, and the characters \<open>0\<close> to \<open>9\<close>.
\<close>

definition valid_datetime :: "datetime \<Rightarrow> bool" where
  "valid_datetime t =
     (1 \<le> year t \<and> year t \<le> 9999 \<and> 1 \<le> month t \<and> month t \<le> 12 \<and>
      1 \<le> day t \<and> day t \<le> 31 \<and> hour t < 24 \<and> minute t < 60 \<and> second t < 60 \<and>
      microsecond t < 1000000)"

definition is_digit :: "char \<Rightarrow> bool" where
  "is_digit ch = (ch \<in> set ''0123456789'')"

section \<open>The file system seen by \<open>to_csv\<close>\<close>

text \<open>
  \<open>disk\<close> maps a path to the table last written there; \<open>write_error\<close> gives, for a path
  that cannot be written, the text of the exception \<open>to_csv\<close> raises.
\<close>

record world =
  disk :: "string \<rightharpoonup> dataframe"
  write_error :: "string \<rightharpoonup> string"

definition to_csv :: "world \<Rightarrow> string \<Rightarrow> dataframe \<Rightarrow> string + world" where
  "to_csv w path df =
     (case write_error w path of
        Some e \<Rightarrow> Inl e
      | None \<Rightarrow> Inr (w\<lparr>disk := (disk w)(path \<mapsto> df)\<rparr>))"

section \<open>\<open>ensure_attendance_columns\<close>\<close>

definition DEFAULT_COLUMNS :: "string list" where
  "DEFAULT_COLUMNS = [''Dinner'', ''Pizza'', ''Breakfast'', ''MRD'']"

definition ts_col :: "string \<Rightarrow> string" where
  "ts_col c = c @ ''_ts''"

fun ensure_loop :: "string list \<Rightarrow> dataframe \<Rightarrow> dataframe" where
  "ensure_loop [] df = df"
| "ensure_loop (c # cs) df =
     (let df1 = (if \<not> has_column df c then setitem df c (Bool False) else df);
          df2 = (if \<not> has_column df1 (ts_col c) then setitem df1 (ts_col c) (Str []) else df1)
      in ensure_loop cs df2)"

definition ensure_attendance_columns :: "dataframe \<Rightarrow> dataframe" where
  "ensure_attendance_columns df = ensure_loop DEFAULT_COLUMNS df"

text \<open>One iteration of that loop, as a function of the frame.\<close>

definition ensure_step :: "string \<Rightarrow> dataframe \<Rightarrow> dataframe" where
  "ensure_step c df =
     (let df1 = (if \<not> has_column df c then setitem df c (Bool False) else df)
      in if \<not> has_column df1 (ts_col c) then setitem df1 (ts_col c) (Str []) else df1)"

section \<open>\<open>mark_attendance\<close>\<close>

text \<open>
  One of the three lookups of the mask:
  \<open>df.get(c, pd.Series([None]*len(df))).astype(str).fillna("") == identifier\<close>.
\<close>

definition id_series :: "dataframe \<Rightarrow> string \<Rightarrow> cell series" where
  "id_series df c = fillna (Str []) (astype_str (df_get df c (\<lambda>i. NoneV)))"

definition match_mask :: "dataframe \<Rightarrow> string \<Rightarrow> bool series" where
  "match_mask df ident =
     series_or (series_or (series_eq (id_series df ''Srn'') ident)
                          (series_eq (id_series df ''Email'') ident))
               (series_eq (id_series df ''Name'') ident)"

text \<open>
  The loop over \<open>columns_to_mark\<close>. Every iteration reads the clock once; \<open>now k\<close> is the
  \<open>k\<close>-th reading of the call.
\<close>

fun mark_loop :: "(nat \<Rightarrow> datetime) \<Rightarrow> nat \<Rightarrow> bool series \<Rightarrow> string list \<Rightarrow> dataframe \<Rightarrow> dataframe" where
  "mark_loop now k msk [] df = df"
| "mark_loop now k msk (c # cs) df =
     (let df1 = (if \<not> has_column df c then setitem df c (Bool False) else df);
          df2 = loc_set df1 msk c (Bool True);
          df3 = loc_set df2 msk (ts_col c) (Str (isoformat (now k)))
      in mark_loop now (Suc k) msk cs df3)"

text \<open>
  The call returns the pair \<open>(ok, message)\<close>; the frame is mutated in place and the file
  may be overwritten, so the model returns the frame and the file system as well.
  \<open>source_path\<close> is \<open>None\<close> or a path; \<open>if source_path:\<close> holds for a non-empty path.
\<close>

record outcome =
  ok :: bool
  message :: string
  frame :: dataframe
  files :: world

definition mark_attendance ::
  "world \<Rightarrow> (nat \<Rightarrow> datetime) \<Rightarrow> dataframe \<Rightarrow> string \<Rightarrow> string list \<Rightarrow> string option \<Rightarrow> outcome" where
  "mark_attendance w now df identifier columns_to_mark source_path =
     (let msk = match_mask df identifier in
      if \<not> series_any (nrows df) msk then
        \<lparr>ok = False,
         message = ''No matching row found for id '' @ [CHR 0x27] @ identifier @ [CHR 0x27],
         frame = df, files = w\<rparr>
      else
        let df' = mark_loop now 0 msk columns_to_mark df in
        (case source_path of
           None \<Rightarrow> \<lparr>ok = True, message = ''Marked'', frame = df', files = w\<rparr>
         | Some p \<Rightarrow>
             if p = [] then \<lparr>ok = True, message = ''Marked'', frame = df', files = w\<rparr>
             else (case to_csv w p df' of
                     Inl e \<Rightarrow> \<lparr>ok = True,
                               message = ''Marked (but failed to write to source CSV: '' @ e @ '')'',
                               frame = df', files = w\<rparr>
                   | Inr w' \<Rightarrow> \<lparr>ok = True, message = ''Marked'', frame = df', files = w'\<rparr>)))"

text \<open>Whether the record at position \<open>i\<close> is matched by the identifier.\<close>

definition matched :: "dataframe \<Rightarrow> string \<Rightarrow> nat \<Rightarrow> bool" where
  "matched df ident i = match_mask df ident i"

text \<open>One iteration of the loop, as a function of the frame.\<close>

definition mark_step :: "(nat \<Rightarrow> datetime) \<Rightarrow> nat \<Rightarrow> bool series \<Rightarrow> string \<Rightarrow> dataframe \<Rightarrow> dataframe" where
  "mark_step now k msk c df =
     loc_set (loc_set (if \<not> has_column df c then setitem df c (Bool False) else df) msk c (Bool True))
       msk (ts_col c) (Str (isoformat (now k)))"

section \<open>\<open>decode_qr_from_bytes\<close>\<close>

text \<open>
  The decoders are libraries outside the repository; the function is modelled over what
  they return. A Python exception is the text of its name. \<open>cv2\<close> and \<open>pyzbar_decode\<close>
  are \<open>None\<close> when the import fails. \<open>cv2\<close> stands for lines 74 to 77 (\<open>frombuffer\<close>,
  \<open>imdecode\<close>, \<open>detectAndDecode\<close>): it raises or returns the decoded text, empty when no
  code is found. \<open>Image_open\<close> is \<open>Image.open(io.BytesIO(b)).convert("RGB")\<close>.
\<close>

type_synonym exn = string
type_synonym bytes = string

record 'img libs =
  cv2 :: "(bytes \<Rightarrow> exn + string) option"
  pyzbar_decode :: "('img \<Rightarrow> exn + bytes list) option"
  Image_open :: "bytes \<Rightarrow> exn + 'img"
  decode_utf8 :: "bytes \<Rightarrow> exn + string"
  decode_latin1 :: "bytes \<Rightarrow> string"

text \<open>The first decoder: its exceptions are caught, and an empty text falls through.\<close>

definition try_cv2 :: "'img libs \<Rightarrow> bytes \<Rightarrow> string option" where
  "try_cv2 L image_bytes =
     (case cv2 L of
        None \<Rightarrow> None
      | Some detect \<Rightarrow>
          (case detect image_bytes of
             Inl e \<Rightarrow> None
           | Inr d \<Rightarrow> if d \<noteq> [] then Some d else None))"

definition decode_qr_from_bytes :: "'img libs \<Rightarrow> bytes \<Rightarrow> exn + string option" where
  "decode_qr_from_bytes L image_bytes =
     (case try_cv2 L image_bytes of
        Some d \<Rightarrow> Inr (Some d)
      | None \<Rightarrow>
          (case pyzbar_decode L of
             None \<Rightarrow> Inr None
           | Some dec \<Rightarrow>
               (case Image_open L image_bytes of
                  Inl e \<Rightarrow> Inl e
                | Inr img \<Rightarrow>
                    (case dec img of
                       Inl e \<Rightarrow> Inl e
                     | Inr decoded \<Rightarrow>
                         (case decoded of
                            [] \<Rightarrow> Inr None
                          | d # _ \<Rightarrow>
                              (case decode_utf8 L d of
                                 Inr s \<Rightarrow> Inr (Some s)
                               | Inl e \<Rightarrow> Inr (Some (decode_latin1 L d))))))))"

section \<open>Example inputs\<close>

text \<open>The roster of the specification's examples: one record, Alice.\<close>

definition roster_alice :: dataframe where
  "roster_alice =
     \<lparr>nrows = 1, columns = [''Name'', ''Srn'', ''Email'', ''Dinner''],
      data = (\<lambda>c i. if c = ''Name'' then Str ''Alice''
                     else if c = ''Srn'' then Str ''1''
                     else if c = ''Email'' then Str ''a@x.com''
                     else Bool False)\<rparr>"

text \<open>A roster with a \<open>Name\<close> column only.\<close>

definition roster_names_only :: dataframe where
  "roster_names_only =
     \<lparr>nrows = 1, columns = [''Name''], data = (\<lambda>c i. Str ''Alice'')\<rparr>"

text \<open>Two records that share the empty email.\<close>

definition roster_blank_emails :: dataframe where
  "roster_blank_emails =
     \<lparr>nrows = 2, columns = [''Name'', ''Email'', ''Pizza''],
      data = (\<lambda>c i. if c = ''Name'' then (if i = 0 then Str ''Ann'' else Str ''Bob'')
                     else if c = ''Email'' then Str []
                     else Bool False)\<rparr>"

text \<open>Two records, the first one named \<open>False\<close>, and no \<open>Srn\<close> column.\<close>

definition roster_false_bob :: dataframe where
  "roster_false_bob =
     \<lparr>nrows = 2, columns = [''Name''],
      data = (\<lambda>c i. if i = 0 then Str ''False'' else Str ''Bob'')\<rparr>"

text \<open>A clock that advances by one second at every reading, and an empty file system.\<close>

definition clock0 :: "nat \<Rightarrow> datetime" where
  "clock0 k = \<lparr>year = 2025, month = 10, day = 4, hour = 18, minute = 30, second = k,
               microsecond = 0\<rparr>"

definition world0 :: world where
  "world0 = \<lparr>disk = Map.empty, write_error = Map.empty\<rparr>"

text \<open>A file system on which \<open>teams.csv\<close> cannot be written.\<close>

definition world_readonly :: world where
  "world_readonly = \<lparr>disk = Map.empty, write_error = [''teams.csv'' \<mapsto> ''Permission denied'']\<rparr>"

text \<open>
  Libraries as on a host where OpenCV rejects the buffer, \<open>pyzbar\<close> is installed and
  Pillow does not recognise the bytes as an image.
\<close>

definition libs_pyzbar :: "unit libs" where
  "libs_pyzbar =
     \<lparr>cv2 = Some (\<lambda>b. Inl ''cv2.error''),
      pyzbar_decode = Some (\<lambda>img. Inr []),
      Image_open = (\<lambda>b. Inl ''PIL.UnidentifiedImageError''),
      decode_utf8 = (\<lambda>b. Inr b),
      decode_latin1 = (\<lambda>b. b)\<rparr>"

section \<open>The layout of \<open>isoformat\<close>\<close>

text \<open>
  For a datetime within its ranges, \<open>isoformat\<close> is four digits, two, two, then after
  \<open>T\<close> two, two and two digits, separated as \<open>YYYY-MM-DDTHH:MM:SS\<close>, with a point and
  six more digits exactly when the microsecond is not zero.
\<close>

lemma digit_char_is_digit: "d < 10 \<Longrightarrow> is_digit (digit_char d)"
  unfolding is_digit_def digit_char_def
  by (rule nth_mem) simp

lemma str_nat_digits: "list_all is_digit (str_nat n)"
proof (induction n rule: str_nat.induct)
  case (1 n)
  show ?case
  proof (cases "n < 10")
    case True
    then show ?thesis by (simp add: str_nat.simps [of n] digit_char_is_digit)
  next
    case False
    then show ?thesis using 1 by (simp add: str_nat.simps [of n] digit_char_is_digit)
  qed
qed

lemma length_str_nat: "n < 10 ^ w \<Longrightarrow> 0 < w \<Longrightarrow> length (str_nat n) \<le> w"
proof (induction w arbitrary: n)
  case 0 then show ?case by simp
next
  case (Suc w)
  show ?case
  proof (cases "n < 10")
    case True
    then show ?thesis by (simp add: str_nat.simps [of n])
  next
    case False
    then have w: "0 < w" using Suc.prems by (cases w) auto
    have "n div 10 < 10 ^ w" using Suc.prems by (simp add: less_mult_imp_div_less mult.commute)
    then have "length (str_nat (n div 10)) \<le> w" using w by (rule Suc.IH)
    then show ?thesis using False by (simp add: str_nat.simps [of n])
  qed
qed

lemma zpad_layout: "n < 10 ^ w \<Longrightarrow> 0 < w \<Longrightarrow> length (zpad w n) = w \<and> list_all is_digit (zpad w n)"
proof -
  assume a: "n < 10 ^ w" "0 < w"
  have "is_digit (CHR ''0'')" by (simp add: is_digit_def)
  then have "list_all is_digit (replicate k (CHR ''0''))" for k by (induction k) simp_all
  then show ?thesis
    using length_str_nat [OF a] str_nat_digits [of n] by (simp add: zpad_def)
qed

lemma isoformat_layout:
  assumes "valid_datetime t"
  shows "\<exists>Y M D h m s f.
           isoformat t = Y @ ''-'' @ M @ ''-'' @ D @ ''T'' @ h @ '':'' @ m @ '':'' @ s @ f \<and>
           length Y = 4 \<and> length M = 2 \<and> length D = 2 \<and> length h = 2 \<and> length m = 2 \<and> length s = 2 \<and>
           list_all is_digit (Y @ M @ D @ h @ m @ s) \<and>
           (if microsecond t = 0 then f = []
            else \<exists>u. f = ''.'' @ u \<and> length u = 6 \<and> list_all is_digit u)"
proof -
  have y: "length (zpad 4 (year t)) = 4 \<and> list_all is_digit (zpad 4 (year t))"
    using assms by (intro zpad_layout) (simp_all add: valid_datetime_def)
  have mo: "length (zpad 2 (month t)) = 2 \<and> list_all is_digit (zpad 2 (month t))"
    using assms by (intro zpad_layout) (simp_all add: valid_datetime_def)
  have d: "length (zpad 2 (day t)) = 2 \<and> list_all is_digit (zpad 2 (day t))"
    using assms by (intro zpad_layout) (simp_all add: valid_datetime_def)
  have h: "length (zpad 2 (hour t)) = 2 \<and> list_all is_digit (zpad 2 (hour t))"
    using assms by (intro zpad_layout) (simp_all add: valid_datetime_def)
  have mi: "length (zpad 2 (minute t)) = 2 \<and> list_all is_digit (zpad 2 (minute t))"
    using assms by (intro zpad_layout) (simp_all add: valid_datetime_def)
  have s: "length (zpad 2 (second t)) = 2 \<and> list_all is_digit (zpad 2 (second t))"
    using assms by (intro zpad_layout) (simp_all add: valid_datetime_def)
  have u: "length (zpad 6 (microsecond t)) = 6 \<and> list_all is_digit (zpad 6 (microsecond t))"
    using assms by (intro zpad_layout) (simp_all add: valid_datetime_def)
  show ?thesis
    apply (rule exI [of _ "zpad 4 (year t)"])
    apply (rule exI [of _ "zpad 2 (month t)"])
    apply (rule exI [of _ "zpad 2 (day t)"])
    apply (rule exI [of _ "zpad 2 (hour t)"])
    apply (rule exI [of _ "zpad 2 (minute t)"])
    apply (rule exI [of _ "zpad 2 (second t)"])
    apply (rule exI [of _ "if microsecond t \<noteq> 0 then ''.'' @ zpad 6 (microsecond t) else []"])
    using y mo d h mi s u by (simp add: isoformat_def)
qed

lemma isoformat_example: "isoformat (clock0 5) = ''2025-10-04T18:30:05''"
  by (simp add: isoformat_def clock0_def zpad_def str_nat.simps digit_char_def)

section \<open>Properties of the frame operations and of the marking loop\<close>

lemma ts_col_inj: "ts_col a = ts_col b \<longleftrightarrow> a = b"
  by (simp add: ts_col_def)

lemma ts_col_neq_self: "ts_col c \<noteq> c" "c \<noteq> ts_col c"
  by (simp_all add: ts_col_def)

lemma series_any_iff: "series_any n m \<longleftrightarrow> (\<exists>i<n. m i)"
  by (auto simp: series_any_def list_ex_iff)

lemma has_column_setitem: "has_column (setitem df c v) x \<longleftrightarrow> has_column df x \<or> x = c"
  by (auto simp: has_column_def setitem_def)

lemma has_column_loc_set: "has_column (loc_set df m c v) x \<longleftrightarrow> has_column df x \<or> x = c"
  by (auto simp: has_column_def loc_set_def)

lemma nrows_setitem: "nrows (setitem df c v) = nrows df"
  by (simp add: setitem_def)

lemma nrows_loc_set: "nrows (loc_set df m c v) = nrows df"
  by (simp add: loc_set_def)

lemma data_setitem: "data (setitem df c v) x i = (if x = c then v else data df x i)"
  by (simp add: setitem_def)

lemma data_loc_set:
  "data (loc_set df m c v) x i =
     (if x = c then (if m i then v else if has_column df c then data df c i else NaN)
      else data df x i)"
  by (simp add: loc_set_def)

lemma mark_loop_Cons: "mark_loop now k msk (c # cs) df = mark_loop now (Suc k) msk cs (mark_step now k msk c df)"
  by (simp add: mark_step_def Let_def)

declare mark_loop.simps(2) [simp del]

lemma nrows_mark_step: "nrows (mark_step now k m c df) = nrows df"
  by (simp add: mark_step_def nrows_loc_set nrows_setitem)

lemma has_column_mark_step:
  "has_column (mark_step now k m c df) x \<longleftrightarrow> has_column df x \<or> x = c \<or> x = ts_col c"
  by (auto simp: mark_step_def has_column_loc_set has_column_setitem)

lemma data_mark_step:
  "data (mark_step now k m c df) x i =
     (if x = ts_col c then (if m i then Str (isoformat (now k)) else if has_column df x then data df x i else NaN)
      else if x = c then (if m i then Bool True else if has_column df x then data df x i else Bool False)
      else data df x i)"
  by (auto simp: mark_step_def data_loc_set data_setitem has_column_loc_set has_column_setitem ts_col_neq_self)

lemma nrows_mark_loop: "nrows (mark_loop now k m cs df) = nrows df"
  by (induction cs arbitrary: df k) (simp_all add: mark_loop_Cons nrows_mark_step)

lemma has_column_mark_loop:
  "has_column (mark_loop now k m cs df) x \<longleftrightarrow> has_column df x \<or> x \<in> set cs \<or> x \<in> ts_col ` set cs"
proof (induction cs arbitrary: df k)
  case Nil then show ?case by simp
next
  case (Cons c cs)
  show ?case unfolding mark_loop_Cons Cons.IH has_column_mark_step by auto
qed

lemma mark_loop_frame:
  "x \<notin> set cs \<Longrightarrow> x \<notin> ts_col ` set cs \<Longrightarrow> data (mark_loop now k m cs df) x i = data df x i"
proof (induction cs arbitrary: df k)
  case Nil then show ?case by simp
next
  case (Cons c cs)
  then show ?case unfolding mark_loop_Cons by (simp add: data_mark_step)
qed

lemma mark_loop_unmatched_existing:
  "has_column df x \<Longrightarrow> \<not> m i \<Longrightarrow> data (mark_loop now k m cs df) x i = data df x i"
proof (induction cs arbitrary: df k)
  case Nil then show ?case by simp
next
  case (Cons c cs)
  have "has_column (mark_step now k m c df) x" using Cons.prems by (simp add: has_column_mark_step)
  then have "data (mark_loop now (Suc k) m cs (mark_step now k m c df)) x i = data (mark_step now k m c df) x i"
    using Cons.IH Cons.prems by blast
  then show ?case unfolding mark_loop_Cons using Cons.prems by (auto simp: data_mark_step)
qed

lemma mark_loop_unmatched_new:
  "x \<in> set cs \<Longrightarrow> x \<notin> ts_col ` set cs \<Longrightarrow> \<not> has_column df x \<Longrightarrow> \<not> m i \<Longrightarrow>
   data (mark_loop now k m cs df) x i = Bool False"
proof (induction cs arbitrary: df k)
  case Nil then show ?case by simp
next
  case (Cons c cs)
  show ?case
  proof (cases "x = c")
    case True
    have h: "has_column (mark_step now k m c df) x" using True by (simp add: has_column_mark_step)
    have "data (mark_step now k m c df) x i = Bool False"
      using True Cons.prems by (simp add: data_mark_step ts_col_neq_self)
    then show ?thesis unfolding mark_loop_Cons
      using mark_loop_unmatched_existing [of "mark_step now k m c df" x m i now "Suc k" cs] h Cons.prems(4) by simp
  next
    case False
    then have "\<not> has_column (mark_step now k m c df) x" using Cons.prems by (auto simp: has_column_mark_step)
    then show ?thesis unfolding mark_loop_Cons using Cons.IH Cons.prems False by auto
  qed
qed

lemma mark_loop_matched_flag:
  "x \<in> set cs \<Longrightarrow> x \<notin> ts_col ` set cs \<Longrightarrow> m i \<Longrightarrow> data (mark_loop now k m cs df) x i = Bool True"
proof (induction cs arbitrary: df k)
  case Nil then show ?case by simp
next
  case (Cons c cs)
  show ?case
  proof (cases "x \<in> set cs")
    case True
    then show ?thesis unfolding mark_loop_Cons using Cons.IH Cons.prems by auto
  next
    case False
    then have xc: "x = c" using Cons.prems by simp
    have "x \<notin> ts_col ` set cs" using Cons.prems by auto
    then have "data (mark_loop now (Suc k) m cs (mark_step now k m c df)) x i = data (mark_step now k m c df) x i"
      using False by (rule mark_loop_frame [rotated])
    then show ?thesis unfolding mark_loop_Cons using xc Cons.prems by (simp add: data_mark_step ts_col_neq_self)
  qed
qed

lemma mark_loop_matched_ts:
  "c \<in> set cs \<Longrightarrow> ts_col c \<notin> set cs \<Longrightarrow> m i \<Longrightarrow>
   \<exists>j<length cs. cs ! j = c \<and> data (mark_loop now k m cs df) (ts_col c) i = Str (isoformat (now (k + j)))"
proof (induction cs arbitrary: df k)
  case Nil then show ?case by simp
next
  case (Cons a cs)
  show ?case
  proof (cases "c \<in> set cs")
    case True
    then obtain j where j: "j < length cs" "cs ! j = c"
      "data (mark_loop now (Suc k) m cs (mark_step now k m a df)) (ts_col c) i = Str (isoformat (now (Suc k + j)))"
      using Cons.IH [of "Suc k" "mark_step now k m a df"] Cons.prems by auto
    then show ?thesis unfolding mark_loop_Cons
      by (intro exI [of _ "Suc j"]) simp
  next
    case False
    then have ca: "c = a" using Cons.prems by simp
    have "ts_col c \<notin> set cs" "ts_col c \<notin> ts_col ` set cs" using Cons.prems False by (auto simp: ts_col_inj)
    then have "data (mark_loop now (Suc k) m cs (mark_step now k m a df)) (ts_col c) i = data (mark_step now k m a df) (ts_col c) i"
      by (rule mark_loop_frame)
    then show ?thesis unfolding mark_loop_Cons using ca Cons.prems
      by (intro exI [of _ 0]) (simp add: data_mark_step)
  qed
qed

section \<open>Properties of \<open>mark_attendance\<close>\<close>

lemma matched_any: "i < nrows df \<Longrightarrow> matched df ident i \<Longrightarrow> series_any (nrows df) (match_mask df ident)"
  by (auto simp: series_any_iff matched_def)

lemma id_series_cell:
  "id_series df c i = Str (py_str (if has_column df c then data df c i else NoneV))"
  by (simp add: id_series_def fillna_def astype_str_def df_get_def isna_def)

lemma matched_iff:
  "matched df ident i \<longleftrightarrow>
     py_str (if has_column df ''Srn'' then data df ''Srn'' i else NoneV) = ident \<or>
     py_str (if has_column df ''Email'' then data df ''Email'' i else NoneV) = ident \<or>
     py_str (if has_column df ''Name'' then data df ''Name'' i else NoneV) = ident"
  unfolding matched_def match_mask_def series_or_def series_eq_def id_series_cell by simp

lemma isoformat_nonempty: "isoformat t \<noteq> []"
  by (simp add: isoformat_def)

lemma mark_attendance_matched:
  assumes "series_any (nrows df) (match_mask df ident)"
  shows "ok (mark_attendance w now df ident cats sp)"
    and "frame (mark_attendance w now df ident cats sp) = mark_loop now 0 (match_mask df ident) cats df"
  using assms by (auto simp: mark_attendance_def Let_def split: option.splits sum.splits)

text \<open>
  C2. When no record matches the identifier, \<open>mark_attendance\<close> returns the failure
  \<open>No matching row found for id '<identifier>'\<close>, the frame is the one it was given
  (every flag and timestamp unchanged) and nothing is written to the file system.
\<close>

theorem mark_attendance_no_match:
  assumes "\<forall>i<nrows df. \<not> matched df identifier i"
  shows "mark_attendance w now df identifier columns_to_mark source_path =
           \<lparr>ok = False,
            message = ''No matching row found for id '' @ [CHR 0x27] @ identifier @ [CHR 0x27],
            frame = df, files = w\<rparr>"
proof -
  have "\<not> series_any (nrows df) (match_mask df identifier)"
    using assms by (simp add: series_any_iff matched_def)
  then show ?thesis by (simp add: mark_attendance_def)
qed

theorem mark_attendance_no_match_witness:
  "nrows roster_alice = 1 \<and> \<not> matched roster_alice ''nobody'' 0 \<and>
   mark_attendance world0 clock0 roster_alice ''nobody'' [''Dinner''] None =
     \<lparr>ok = False, message = ''No matching row found for id '' @ [CHR 0x27] @ ''nobody'' @ [CHR 0x27],
      frame = roster_alice, files = world0\<rparr>"
proof -
  have h: "\<forall>i<nrows roster_alice. \<not> matched roster_alice ''nobody'' i"
    by (simp add: matched_iff roster_alice_def has_column_def)
  show ?thesis
    using h mark_attendance_no_match [OF h, of world0 clock0 "[''Dinner'']" None]
    by (simp add: roster_alice_def)
qed

text \<open>
  C1. The claim asks that a record match exactly when the identifier equals the text of
  its cell in \<open>Srn\<close>, \<open>Email\<close> or \<open>Name\<close>, an absent column counting as a column of
  empty strings. The first half is \<open>matched_iff\<close>. The second half fails: the default
  series of an absent column holds \<open>None\<close>, \<open>astype(str)\<close> turns it into the text
  \<open>None\<close> before \<open>fillna("")\<close> runs, and \<open>fillna\<close> then finds nothing to fill. On a
  roster without \<open>Srn\<close> and \<open>Email\<close> columns the empty identifier matches no record and
  the identifier \<open>None\<close> matches every record, which is then marked.
\<close>

theorem mark_attendance_absent_column_is_None:
  "\<not> has_column roster_names_only ''Srn'' \<and>
   id_series roster_names_only ''Srn'' 0 = Str ''None'' \<and>
   \<not> matched roster_names_only [] 0 \<and>
   matched roster_names_only ''None'' 0 \<and>
   ok (mark_attendance world0 clock0 roster_names_only ''None'' [''Dinner''] None) \<and>
   data (frame (mark_attendance world0 clock0 roster_names_only ''None'' [''Dinner''] None))
     ''Dinner'' 0 = Bool True"
proof -
  have m: "matched roster_names_only ''None'' 0"
    by (simp add: matched_iff roster_names_only_def has_column_def)
  have a: "series_any (nrows roster_names_only) (match_mask roster_names_only ''None'')"
    using m by (intro matched_any) (simp_all add: roster_names_only_def)
  have f: "data (frame (mark_attendance world0 clock0 roster_names_only ''None'' [''Dinner''] None))
     ''Dinner'' 0 = Bool True"
    unfolding mark_attendance_matched(2) [OF a]
    using m by (intro mark_loop_matched_flag) (auto simp: matched_def ts_col_def)
  show ?thesis
    using m f mark_attendance_matched(1) [OF a]
    by (simp add: matched_iff id_series_cell roster_names_only_def has_column_def)
qed

text \<open>
  C3, as amended. When a record matches, \<open>mark_attendance\<close> returns success and, for
  every matched record and every requested category \<open>c\<close> such that \<open>c\<close> is not the
  timestamp column of a requested category and \<open>c_ts\<close> is not itself requested, the flag
  \<open>c\<close> is true and \<open>c_ts\<close> holds the non-empty \<open>isoformat\<close> text of a clock reading taken
  during the call, in an iteration that handles \<open>c\<close>.
\<close>

theorem mark_attendance_marks_matched:
  assumes "i < nrows df" and "matched df identifier i"
    and "c \<in> set columns_to_mark"
    and "c \<notin> ts_col ` set columns_to_mark" and "ts_col c \<notin> set columns_to_mark"
  shows "ok (mark_attendance w now df identifier columns_to_mark source_path) \<and>
         data (frame (mark_attendance w now df identifier columns_to_mark source_path)) c i = Bool True \<and>
         (\<exists>j<length columns_to_mark. columns_to_mark ! j = c \<and>
            data (frame (mark_attendance w now df identifier columns_to_mark source_path)) (ts_col c) i
              = Str (isoformat (now j)) \<and> isoformat (now j) \<noteq> [])"
proof -
  have a: "series_any (nrows df) (match_mask df identifier)"
    using assms(1,2) by (rule matched_any)
  have m: "match_mask df identifier i" using assms(2) by (simp add: matched_def)
  have flag: "data (mark_loop now 0 (match_mask df identifier) columns_to_mark df) c i = Bool True"
    using assms(3,4) m by (rule mark_loop_matched_flag)
  have ts: "\<exists>j<length columns_to_mark. columns_to_mark ! j = c \<and>
      data (mark_loop now 0 (match_mask df identifier) columns_to_mark df) (ts_col c) i
        = Str (isoformat (now (0 + j)))"
    using assms(3,5) m by (rule mark_loop_matched_ts)
  show ?thesis
    unfolding mark_attendance_matched(2) [OF a]
    using mark_attendance_matched(1) [OF a] flag ts by (auto simp: isoformat_nonempty)
qed

theorem mark_attendance_marks_matched_witness:
  "matched roster_alice ''a@x.com'' 0 \<and>
   ok (mark_attendance world0 clock0 roster_alice ''a@x.com'' [''Dinner''] None) \<and>
   data (frame (mark_attendance world0 clock0 roster_alice ''a@x.com'' [''Dinner''] None)) ''Dinner'' 0
     = Bool True \<and>
   data (frame (mark_attendance world0 clock0 roster_alice ''a@x.com'' [''Dinner''] None)) ''Dinner_ts'' 0
     = Str (isoformat (clock0 0))"
proof -
  have m: "matched roster_alice ''a@x.com'' 0"
    by (simp add: matched_iff roster_alice_def has_column_def)
  have n: "0 < nrows roster_alice" by (simp add: roster_alice_def)
  show ?thesis
    using m mark_attendance_marks_matched [OF n m, of "''Dinner''" "[''Dinner'']" world0 clock0 None]
    by (simp add: ts_col_def)
qed

text \<open>
  C3 as stated fails when a category and its own timestamp column are both requested,
  which the scanner's column selector allows: after \<open>Dinner\<close> is handled, the iteration
  for \<open>Dinner_ts\<close> overwrites the timestamp with the flag value.
\<close>

theorem mark_attendance_timestamp_overwritten:
  "matched roster_alice ''a@x.com'' 0 \<and>
   ok (mark_attendance world0 clock0 roster_alice ''a@x.com'' [''Dinner'', ''Dinner_ts''] None) \<and>
   data (frame (mark_attendance world0 clock0 roster_alice ''a@x.com'' [''Dinner'', ''Dinner_ts''] None))
     (ts_col ''Dinner'') 0 = Bool True"
proof -
  have m: "matched roster_alice ''a@x.com'' 0"
    by (simp add: matched_iff roster_alice_def has_column_def)
  have a: "series_any (nrows roster_alice) (match_mask roster_alice ''a@x.com'')"
    using m by (intro matched_any) (simp_all add: roster_alice_def)
  have "data (mark_loop clock0 0 (match_mask roster_alice ''a@x.com'') [''Dinner'', ''Dinner_ts''] roster_alice)
     ''Dinner_ts'' 0 = Bool True"
    using m by (simp add: mark_loop_Cons data_mark_step matched_def ts_col_def)
  then show ?thesis
    using m mark_attendance_matched [OF a] by (simp add: ts_col_def)
qed

text \<open>
  C4, as amended. Every record matched by the identifier, not only the first, has each
  requested category true after the call, for the categories that are not the timestamp
  column of a requested category.
\<close>

theorem mark_attendance_marks_every_match:
  assumes "i < nrows df" and "matched df identifier i"
    and "c \<in> set columns_to_mark" and "c \<notin> ts_col ` set columns_to_mark"
  shows "data (frame (mark_attendance w now df identifier columns_to_mark source_path)) c i = Bool True"
proof -
  have "series_any (nrows df) (match_mask df identifier)"
    using assms(1,2) by (rule matched_any)
  then have "frame (mark_attendance w now df identifier columns_to_mark source_path) =
      mark_loop now 0 (match_mask df identifier) columns_to_mark df"
    by (rule mark_attendance_matched(2))
  moreover have "match_mask df identifier i" using assms(2) by (simp add: matched_def)
  ultimately show ?thesis using assms(3,4) by (simp add: mark_loop_matched_flag)
qed

theorem mark_attendance_marks_every_match_witness:
  "matched roster_blank_emails [] 0 \<and> matched roster_blank_emails [] 1 \<and>
   data (frame (mark_attendance world0 clock0 roster_blank_emails [] [''Pizza''] None)) ''Pizza'' 0
     = Bool True \<and>
   data (frame (mark_attendance world0 clock0 roster_blank_emails [] [''Pizza''] None)) ''Pizza'' 1
     = Bool True"
proof -
  have m0: "matched roster_blank_emails [] 0" and m1: "matched roster_blank_emails [] 1"
    by (simp_all add: matched_iff roster_blank_emails_def has_column_def)
  have n0: "0 < nrows roster_blank_emails" and n1: "1 < nrows roster_blank_emails"
    by (simp_all add: roster_blank_emails_def)
  show ?thesis
    using m0 m1
      mark_attendance_marks_every_match [OF n0 m0, of "''Pizza''" "[''Pizza'']" world0 clock0 None]
      mark_attendance_marks_every_match [OF n1 m1, of "''Pizza''" "[''Pizza'']" world0 clock0 None]
    by (simp add: ts_col_def)
qed

text \<open>
  C4 as stated fails when a requested category is also the timestamp column of a
  category handled after it: both matching records end with a timestamp, not a true
  flag, in the requested category \<open>Pizza_ts\<close>.
\<close>

theorem mark_attendance_flag_overwritten:
  "matched roster_blank_emails [] 0 \<and> matched roster_blank_emails [] 1 \<and>
   data (frame (mark_attendance world0 clock0 roster_blank_emails [] [''Pizza_ts'', ''Pizza''] None))
     ''Pizza_ts'' 0 = Str (isoformat (clock0 1)) \<and>
   data (frame (mark_attendance world0 clock0 roster_blank_emails [] [''Pizza_ts'', ''Pizza''] None))
     ''Pizza_ts'' 1 = Str (isoformat (clock0 1))"
proof -
  have m0: "matched roster_blank_emails [] 0" and m1: "matched roster_blank_emails [] 1"
    by (simp_all add: matched_iff roster_blank_emails_def has_column_def)
  have a: "series_any (nrows roster_blank_emails) (match_mask roster_blank_emails [])"
    using m0 by (intro matched_any) (simp_all add: roster_blank_emails_def)
  have "data (mark_loop clock0 0 (match_mask roster_blank_emails []) [''Pizza_ts'', ''Pizza''] roster_blank_emails)
     ''Pizza_ts'' 0 = Str (isoformat (clock0 1))"
    and "data (mark_loop clock0 0 (match_mask roster_blank_emails []) [''Pizza_ts'', ''Pizza''] roster_blank_emails)
     ''Pizza_ts'' 1 = Str (isoformat (clock0 1))"
    using m0 m1 by (simp_all add: mark_loop_Cons data_mark_step matched_def ts_col_def)
  then show ?thesis
    using m0 m1 mark_attendance_matched(2) [OF a] by simp
qed

text \<open>
  C6. When records were matched and marked and writing the roster back to its source
  path fails, the call still returns success, its message reports the write failure
  with the text of the exception, the frame is the marked one (the same as from a call
  with no source path) and the file system is unchanged.
\<close>

theorem mark_attendance_write_failure:
  assumes "i < nrows df" and "matched df identifier i"
    and "p \<noteq> []" and "write_error w p = Some e"
  shows "mark_attendance w now df identifier columns_to_mark (Some p) =
           \<lparr>ok = True,
            message = ''Marked (but failed to write to source CSV: '' @ e @ '')'',
            frame = frame (mark_attendance w now df identifier columns_to_mark None),
            files = w\<rparr>"
proof -
  have "series_any (nrows df) (match_mask df identifier)"
    using assms(1,2) by (rule matched_any)
  then show ?thesis
    using assms(3,4) by (simp add: mark_attendance_def to_csv_def Let_def)
qed

theorem mark_attendance_write_failure_witness:
  "matched roster_alice ''Alice'' 0 \<and>
   mark_attendance world_readonly clock0 roster_alice ''Alice'' [''Dinner''] (Some ''teams.csv'') =
     \<lparr>ok = True,
      message = ''Marked (but failed to write to source CSV: Permission denied)'',
      frame = frame (mark_attendance world_readonly clock0 roster_alice ''Alice'' [''Dinner''] None),
      files = world_readonly\<rparr> \<and>
   data (frame (mark_attendance world_readonly clock0 roster_alice ''Alice'' [''Dinner''] (Some ''teams.csv'')))
     ''Dinner'' 0 = Bool True"
proof -
  have m: "matched roster_alice ''Alice'' 0"
    by (simp add: matched_iff roster_alice_def has_column_def)
  have n: "0 < nrows roster_alice" by (simp add: roster_alice_def)
  have e: "write_error world_readonly ''teams.csv'' = Some ''Permission denied''"
    by (simp add: world_readonly_def)
  have p: "''teams.csv'' \<noteq> []" by simp
  have a: "series_any (nrows roster_alice) (match_mask roster_alice ''Alice'')"
    using n m by (rule matched_any)
  have f: "data (frame (mark_attendance world_readonly clock0 roster_alice ''Alice'' [''Dinner''] None))
     ''Dinner'' 0 = Bool True"
    unfolding mark_attendance_matched(2) [OF a]
    using m by (intro mark_loop_matched_flag) (auto simp: matched_def ts_col_def)
  show ?thesis
    using m f mark_attendance_write_failure [OF n m p e, of clock0 "[''Dinner'']"] by simp
qed

text \<open>
  C10, as amended. Let a requested category \<open>c\<close> be absent from the roster and not be
  the timestamp column of a requested category. When a record matches, the call
  succeeds, \<open>c\<close> is a column afterwards, it is true in every matched record and false in
  every record that is not matched.
\<close>

theorem mark_attendance_creates_missing_column:
  assumes "i < nrows df" and "matched df identifier i"
    and "c \<in> set columns_to_mark" and "\<not> has_column df c"
    and "c \<notin> ts_col ` set columns_to_mark"
  shows "ok (mark_attendance w now df identifier columns_to_mark source_path) \<and>
         has_column (frame (mark_attendance w now df identifier columns_to_mark source_path)) c \<and>
         (\<forall>j. data (frame (mark_attendance w now df identifier columns_to_mark source_path)) c j
                = Bool (matched df identifier j))"
proof -
  have a: "series_any (nrows df) (match_mask df identifier)"
    using assms(1,2) by (rule matched_any)
  have "data (mark_loop now 0 (match_mask df identifier) columns_to_mark df) c j
          = Bool (matched df identifier j)" for j
  proof (cases "match_mask df identifier j")
    case True
    then show ?thesis using assms(3,5) by (simp add: mark_loop_matched_flag matched_def)
  next
    case False
    then show ?thesis using assms(3,4,5) by (simp add: mark_loop_unmatched_new matched_def)
  qed
  then show ?thesis
    unfolding mark_attendance_matched(2) [OF a]
    using mark_attendance_matched(1) [OF a] assms(3) by (simp add: has_column_mark_loop)
qed

theorem mark_attendance_creates_missing_column_witness:
  "\<not> has_column roster_blank_emails ''MRD'' \<and>
   matched roster_blank_emails ''Ann'' 0 \<and> \<not> matched roster_blank_emails ''Ann'' 1 \<and>
   ok (mark_attendance world0 clock0 roster_blank_emails ''Ann'' [''MRD''] None) \<and>
   has_column (frame (mark_attendance world0 clock0 roster_blank_emails ''Ann'' [''MRD''] None)) ''MRD'' \<and>
   data (frame (mark_attendance world0 clock0 roster_blank_emails ''Ann'' [''MRD''] None)) ''MRD'' 0
     = Bool True \<and>
   data (frame (mark_attendance world0 clock0 roster_blank_emails ''Ann'' [''MRD''] None)) ''MRD'' 1
     = Bool False"
proof -
  have m0: "matched roster_blank_emails ''Ann'' 0" and m1: "\<not> matched roster_blank_emails ''Ann'' 1"
    and h: "\<not> has_column roster_blank_emails ''MRD''"
    by (simp_all add: matched_iff roster_blank_emails_def has_column_def)
  have n0: "0 < nrows roster_blank_emails" by (simp add: roster_blank_emails_def)
  have c: "''MRD'' \<in> set [''MRD'']" and t: "''MRD'' \<notin> ts_col ` set [''MRD'']"
    by (simp_all add: ts_col_def)
  show ?thesis
    using m0 m1 h mark_attendance_creates_missing_column [OF n0 m0 c h t, of world0 clock0 None]
    by simp
qed

text \<open>
  C10 as stated fails when the absent category is the timestamp column of a category
  handled before it: the timestamp assignment creates the column first, so it is never
  initialised to false and the unmatched record is left with \<open>NaN\<close>.
\<close>

theorem mark_attendance_missing_column_not_false:
  "\<not> has_column roster_blank_emails ''Pizza_ts'' \<and>
   matched roster_blank_emails ''Ann'' 0 \<and> \<not> matched roster_blank_emails ''Ann'' 1 \<and>
   data (frame (mark_attendance world0 clock0 roster_blank_emails ''Ann'' [''Pizza'', ''Pizza_ts''] None))
     ''Pizza_ts'' 1 = NaN"
proof -
  have m0: "matched roster_blank_emails ''Ann'' 0" and m1: "\<not> matched roster_blank_emails ''Ann'' 1"
    and h: "\<not> has_column roster_blank_emails ''Pizza_ts''"
    by (simp_all add: matched_iff roster_blank_emails_def has_column_def)
  have a: "series_any (nrows roster_blank_emails) (match_mask roster_blank_emails ''Ann'')"
    using m0 by (intro matched_any) (simp_all add: roster_blank_emails_def)
  have "data (mark_loop clock0 0 (match_mask roster_blank_emails ''Ann'') [''Pizza'', ''Pizza_ts''] roster_blank_emails)
     ''Pizza_ts'' 1 = NaN"
    using m0 m1 h by (simp add: mark_loop_Cons data_mark_step has_column_mark_step matched_def ts_col_def)
  then show ?thesis
    using m0 m1 h mark_attendance_matched(2) [OF a] by simp
qed

lemma last_ts_col: "last (ts_col c) = CHR ''s''"
  by (simp add: ts_col_def)

lemma id_column_not_ts:
  "''Srn'' \<notin> ts_col ` S" "''Email'' \<notin> ts_col ` S" "''Name'' \<notin> ts_col ` S"
proof -
  have "s \<noteq> ts_col c" if "last s \<noteq> CHR ''s''" for s c
    using that last_ts_col [of c] by auto
  then have "''Srn'' \<noteq> ts_col c" "''Email'' \<noteq> ts_col c" "''Name'' \<noteq> ts_col c" for c
    by simp_all
  then show "''Srn'' \<notin> ts_col ` S" "''Email'' \<notin> ts_col ` S" "''Name'' \<notin> ts_col ` S"
    by blast+
qed

lemma id_series_mark_loop_unmatched:
  assumes "\<not> m i" and "c \<in> set cs \<longrightarrow> has_column df c" and "c \<notin> ts_col ` set cs"
  shows "id_series (mark_loop now k m cs df) c i = id_series df c i"
proof (cases "has_column df c")
  case True
  then show ?thesis
    using assms(1) by (simp add: id_series_cell has_column_mark_loop mark_loop_unmatched_existing)
next
  case False
  then have "\<not> has_column (mark_loop now k m cs df) c"
    using assms(2,3) by (auto simp: has_column_mark_loop)
  then show ?thesis using False by (simp add: id_series_cell)
qed

lemma match_mask_iff:
  "match_mask df ident i \<longleftrightarrow>
     id_series df ''Srn'' i = Str ident \<or> id_series df ''Email'' i = Str ident \<or>
     id_series df ''Name'' i = Str ident"
  by (simp add: match_mask_def series_or_def series_eq_def)

lemma match_mask_after_marking:
  assumes "\<forall>c\<in>{''Srn'', ''Email'', ''Name''}. c \<in> set cs \<longrightarrow> has_column df c"
    and "match_mask (mark_loop now k (match_mask df ident) cs df) ident i"
  shows "match_mask df ident i"
proof (rule ccontr)
  assume n: "\<not> match_mask df ident i"
  let ?df1 = "mark_loop now k (match_mask df ident) cs df"
  have s: "id_series ?df1 ''Srn'' i = id_series df ''Srn'' i"
    using n _ id_column_not_ts(1) by (rule id_series_mark_loop_unmatched) (use assms(1) in simp)
  have e: "id_series ?df1 ''Email'' i = id_series df ''Email'' i"
    using n _ id_column_not_ts(2) by (rule id_series_mark_loop_unmatched) (use assms(1) in simp)
  have m: "id_series ?df1 ''Name'' i = id_series df ''Name'' i"
    using n _ id_column_not_ts(3) by (rule id_series_mark_loop_unmatched) (use assms(1) in simp)
  have "match_mask ?df1 ident i = match_mask df ident i"
    by (simp only: match_mask_iff s e m)
  then show False using n assms(2) by simp
qed

lemma columns_mark_step:
  "has_column df c \<Longrightarrow> has_column df (ts_col c) \<Longrightarrow> columns (mark_step now k m c df) = columns df"
  by (simp add: mark_step_def loc_set_def has_column_def)

lemma columns_mark_loop:
  "\<forall>c\<in>set cs. has_column df c \<and> has_column df (ts_col c) \<Longrightarrow>
   columns (mark_loop now k m cs df) = columns df"
proof (induction cs arbitrary: df k)
  case Nil then show ?case by simp
next
  case (Cons c cs)
  have "\<forall>a\<in>set cs. has_column (mark_step now k m c df) a \<and> has_column (mark_step now k m c df) (ts_col a)"
    using Cons.prems by (simp add: has_column_mark_step)
  then have "columns (mark_loop now (Suc k) m cs (mark_step now k m c df)) = columns (mark_step now k m c df)"
    by (rule Cons.IH)
  then show ?case using Cons.prems by (simp add: mark_loop_Cons columns_mark_step)
qed

lemma mark_loop_twice:
  assumes "\<forall>c\<in>{''Srn'', ''Email'', ''Name''}. c \<in> set cs \<longrightarrow> has_column df c"
    and "x \<notin> ts_col ` set cs"
  shows "data (mark_loop now2 k2 (match_mask (mark_loop now1 k1 (match_mask df ident) cs df) ident) cs
                 (mark_loop now1 k1 (match_mask df ident) cs df)) x i
         = data (mark_loop now1 k1 (match_mask df ident) cs df) x i"
proof (cases "x \<in> set cs")
  case False
  then show ?thesis using assms(2) by (simp add: mark_loop_frame)
next
  case True
  let ?df1 = "mark_loop now1 k1 (match_mask df ident) cs df"
  show ?thesis
  proof (cases "match_mask ?df1 ident i")
    case m2: True
    have "match_mask df ident i" using assms(1) m2 by (rule match_mask_after_marking)
    then have "data ?df1 x i = Bool True" using True assms(2) by (simp add: mark_loop_matched_flag)
    moreover have "data (mark_loop now2 k2 (match_mask ?df1 ident) cs ?df1) x i = Bool True"
      using True assms(2) m2 by (simp add: mark_loop_matched_flag)
    ultimately show ?thesis by simp
  next
    case False
    moreover have "has_column ?df1 x" using True by (simp add: has_column_mark_loop)
    ultimately show ?thesis by (simp add: mark_loop_unmatched_existing)
  qed
qed

text \<open>
  C5, as amended. Let every one of \<open>Srn\<close>, \<open>Email\<close>, \<open>Name\<close> that is requested as a
  category be a column of the roster. Then a second call with the same identifier and
  categories, on the frame and file system left by the first and at a later time,
  leaves the column labels and every cell identical to their state after the first
  call, except in the timestamp columns of the requested categories.
\<close>

theorem mark_attendance_idempotent_flags:
  assumes "\<forall>c\<in>{''Srn'', ''Email'', ''Name''}. c \<in> set columns_to_mark \<longrightarrow> has_column df c"
    and "x \<notin> ts_col ` set columns_to_mark"
  shows "let r1 = mark_attendance w now1 df identifier columns_to_mark source_path;
             r2 = mark_attendance (files r1) now2 (frame r1) identifier columns_to_mark source_path
         in data (frame r2) x i = data (frame r1) x i \<and> columns (frame r2) = columns (frame r1)"
proof (cases "series_any (nrows df) (match_mask df identifier)")
  case False
  then show ?thesis by (simp add: mark_attendance_def)
next
  case a1: True
  let ?r1 = "mark_attendance w now1 df identifier columns_to_mark source_path"
  let ?df1 = "mark_loop now1 0 (match_mask df identifier) columns_to_mark df"
  let ?r2 = "mark_attendance (files ?r1) now2 ?df1 identifier columns_to_mark source_path"
  have f1: "frame ?r1 = ?df1" using a1 by (rule mark_attendance_matched(2))
  have goal: "data (frame ?r2) x i = data ?df1 x i \<and> columns (frame ?r2) = columns ?df1"
  proof (cases "series_any (nrows ?df1) (match_mask ?df1 identifier)")
    case False
    then show ?thesis by (simp add: mark_attendance_def)
  next
    case True
    then have f2: "frame ?r2 = mark_loop now2 0 (match_mask ?df1 identifier) columns_to_mark ?df1"
      by (rule mark_attendance_matched(2))
    have "\<forall>c\<in>set columns_to_mark. has_column ?df1 c \<and> has_column ?df1 (ts_col c)"
      by (simp add: has_column_mark_loop)
    then have "columns (mark_loop now2 0 (match_mask ?df1 identifier) columns_to_mark ?df1) = columns ?df1"
      by (rule columns_mark_loop)
    then show ?thesis unfolding f2 using assms by (simp add: mark_loop_twice)
  qed
  show ?thesis unfolding Let_def f1 using goal .
qed

theorem mark_attendance_idempotent_flags_witness:
  "has_column roster_alice ''Name'' \<and>
   data (frame (mark_attendance world0 clock0 roster_alice ''Alice'' [''Dinner''] None)) ''Dinner'' 0
     = Bool True \<and>
   data (frame (mark_attendance
                  (files (mark_attendance world0 clock0 roster_alice ''Alice'' [''Dinner''] None))
                  (\<lambda>k. clock0 (k + 60))
                  (frame (mark_attendance world0 clock0 roster_alice ''Alice'' [''Dinner''] None))
                  ''Alice'' [''Dinner''] None)) ''Dinner'' 0
     = Bool True"
proof -
  have h: "\<forall>c\<in>{''Srn'', ''Email'', ''Name''}. c \<in> set [''Dinner''] \<longrightarrow> has_column roster_alice c"
    by simp
  have t: "''Dinner'' \<notin> ts_col ` set [''Dinner'']" by (simp add: ts_col_def)
  have m: "matched roster_alice ''Alice'' 0"
    by (simp add: matched_iff roster_alice_def has_column_def)
  have a: "series_any (nrows roster_alice) (match_mask roster_alice ''Alice'')"
    using m by (intro matched_any) (simp_all add: roster_alice_def)
  have f: "data (frame (mark_attendance world0 clock0 roster_alice ''Alice'' [''Dinner''] None)) ''Dinner'' 0
     = Bool True"
    unfolding mark_attendance_matched(2) [OF a]
    using m by (intro mark_loop_matched_flag) (auto simp: matched_def ts_col_def)
  show ?thesis
    using f mark_attendance_idempotent_flags [OF h t, of world0 clock0 "''Alice''" None "\<lambda>k. clock0 (k + 60)" 0]
    by (simp add: Let_def roster_alice_def has_column_def)
qed

text \<open>
  C5 as stated fails when a requested category is one of the lookup columns and the
  roster lacks it: the first call creates \<open>Srn\<close> with \<open>False\<close> in the unmatched record,
  whose text \<open>False\<close> is then matched by the second call, which sets its flag.
\<close>

theorem mark_attendance_second_call_marks_more:
  "data (frame (mark_attendance world0 clock0 roster_false_bob ''False'' [''Srn''] None)) ''Srn'' 1
     = Bool False \<and>
   data (frame (mark_attendance
                  (files (mark_attendance world0 clock0 roster_false_bob ''False'' [''Srn''] None))
                  clock0
                  (frame (mark_attendance world0 clock0 roster_false_bob ''False'' [''Srn''] None))
                  ''False'' [''Srn''] None)) ''Srn'' 1
     = Bool True"
proof -
  let ?m1 = "match_mask roster_false_bob ''False''"
  let ?df1 = "mark_loop clock0 0 ?m1 [''Srn''] roster_false_bob"
  have m0: "matched roster_false_bob ''False'' 0" and m1: "\<not> matched roster_false_bob ''False'' 1"
    by (simp_all add: matched_iff roster_false_bob_def has_column_def)
  have a1: "series_any (nrows roster_false_bob) ?m1"
    using m0 by (intro matched_any) (simp_all add: roster_false_bob_def)
  have f1: "frame (mark_attendance world0 clock0 roster_false_bob ''False'' [''Srn''] None) = ?df1"
    using a1 by (rule mark_attendance_matched(2))
  have h: "\<not> has_column roster_false_bob ''Srn''"
    by (simp add: roster_false_bob_def has_column_def)
  have d1: "data ?df1 ''Srn'' 1 = Bool False"
    using m1 h by (simp add: mark_loop_Cons data_mark_step matched_def ts_col_def)
  have c1: "has_column ?df1 ''Srn''" by (simp add: has_column_mark_loop)
  have m2: "matched ?df1 ''False'' 1" using d1 c1 by (simp add: matched_iff)
  have "1 < nrows ?df1" by (simp add: nrows_mark_loop roster_false_bob_def)
  then have a2: "series_any (nrows ?df1) (match_mask ?df1 ''False'')"
    using m2 by (rule matched_any)
  have "data (mark_loop clock0 0 (match_mask ?df1 ''False'') [''Srn''] ?df1) ''Srn'' 1 = Bool True"
    using m2 by (intro mark_loop_matched_flag) (auto simp: matched_def ts_col_def)
  then show ?thesis
    unfolding f1 using d1 mark_attendance_matched(2) [OF a2] by simp
qed

section \<open>Properties of \<open>ensure_attendance_columns\<close>\<close>

lemma ensure_loop_Cons: "ensure_loop (c # cs) df = ensure_loop cs (ensure_step c df)"
  by (simp add: ensure_step_def Let_def)

declare ensure_loop.simps(2) [simp del]

lemma has_column_ensure_step:
  "has_column (ensure_step c df) x \<longleftrightarrow> has_column df x \<or> x = c \<or> x = ts_col c"
  by (auto simp: ensure_step_def Let_def has_column_setitem)

lemma data_ensure_step:
  "data (ensure_step c df) x i =
     (if x = c \<and> \<not> has_column df c then Bool False
      else if x = ts_col c \<and> \<not> has_column df (ts_col c) then Str []
      else data df x i)"
  by (auto simp: ensure_step_def Let_def has_column_setitem data_setitem ts_col_neq_self)

lemma nrows_ensure_step: "nrows (ensure_step c df) = nrows df"
  by (simp add: ensure_step_def Let_def nrows_setitem)

lemma columns_ensure_step: "\<exists>ys. columns (ensure_step c df) = columns df @ ys"
  by (simp add: ensure_step_def Let_def setitem_def)

lemma nrows_ensure_loop: "nrows (ensure_loop cs df) = nrows df"
  by (induction cs arbitrary: df) (simp_all add: ensure_loop_Cons nrows_ensure_step)

lemma columns_ensure_loop: "\<exists>ys. columns (ensure_loop cs df) = columns df @ ys"
proof (induction cs arbitrary: df)
  case Nil then show ?case by simp
next
  case (Cons c cs)
  obtain ys where "columns (ensure_step c df) = columns df @ ys"
    using columns_ensure_step by blast
  moreover obtain zs where "columns (ensure_loop cs (ensure_step c df)) = columns (ensure_step c df) @ zs"
    using Cons.IH by blast
  ultimately show ?case by (simp add: ensure_loop_Cons)
qed

lemma has_column_ensure_loop:
  "has_column (ensure_loop cs df) x \<longleftrightarrow> has_column df x \<or> x \<in> set cs \<or> x \<in> ts_col ` set cs"
proof (induction cs arbitrary: df)
  case Nil then show ?case by simp
next
  case (Cons c cs)
  show ?case unfolding ensure_loop_Cons Cons.IH has_column_ensure_step by auto
qed

lemma ensure_loop_existing:
  "has_column df x \<Longrightarrow> data (ensure_loop cs df) x i = data df x i"
proof (induction cs arbitrary: df)
  case Nil then show ?case by simp
next
  case (Cons c cs)
  have "has_column (ensure_step c df) x" using Cons.prems by (simp add: has_column_ensure_step)
  then have "data (ensure_loop cs (ensure_step c df)) x i = data (ensure_step c df) x i"
    by (rule Cons.IH)
  then show ?case using Cons.prems by (auto simp: ensure_loop_Cons data_ensure_step)
qed

lemma ensure_loop_new_flag:
  "x \<in> set cs \<Longrightarrow> x \<notin> ts_col ` set cs \<Longrightarrow> \<not> has_column df x \<Longrightarrow>
   data (ensure_loop cs df) x i = Bool False"
proof (induction cs arbitrary: df)
  case Nil then show ?case by simp
next
  case (Cons c cs)
  show ?case
  proof (cases "x = c")
    case True
    have "has_column (ensure_step c df) x" using True by (simp add: has_column_ensure_step)
    then have "data (ensure_loop cs (ensure_step c df)) x i = data (ensure_step c df) x i"
      by (rule ensure_loop_existing)
    then show ?thesis using True Cons.prems by (simp add: ensure_loop_Cons data_ensure_step)
  next
    case False
    then have "\<not> has_column (ensure_step c df) x"
      using Cons.prems by (auto simp: has_column_ensure_step)
    then show ?thesis using Cons.IH Cons.prems False by (auto simp: ensure_loop_Cons)
  qed
qed

lemma ensure_loop_new_ts:
  "c \<in> set cs \<Longrightarrow> ts_col c \<notin> set cs \<Longrightarrow> \<not> has_column df (ts_col c) \<Longrightarrow>
   data (ensure_loop cs df) (ts_col c) i = Str []"
proof (induction cs arbitrary: df)
  case Nil then show ?case by simp
next
  case (Cons a cs)
  show ?case
  proof (cases "c = a")
    case True
    have "has_column (ensure_step a df) (ts_col c)" using True by (simp add: has_column_ensure_step)
    then have "data (ensure_loop cs (ensure_step a df)) (ts_col c) i = data (ensure_step a df) (ts_col c) i"
      by (rule ensure_loop_existing)
    then show ?thesis using True Cons.prems
      by (simp add: ensure_loop_Cons data_ensure_step ts_col_neq_self)
  next
    case False
    then have "\<not> has_column (ensure_step a df) (ts_col c)"
      using Cons.prems by (auto simp: has_column_ensure_step ts_col_inj)
    then show ?thesis using Cons.IH Cons.prems False by (auto simp: ensure_loop_Cons)
  qed
qed

lemma DEFAULT_COLUMNS_no_ts:
  assumes "c \<in> set DEFAULT_COLUMNS"
  shows "c \<notin> ts_col ` set DEFAULT_COLUMNS" and "ts_col c \<notin> set DEFAULT_COLUMNS"
proof -
  have "last x \<noteq> CHR ''s''" if "x \<in> set DEFAULT_COLUMNS" for x
    using that by (auto simp: DEFAULT_COLUMNS_def)
  then have "x \<noteq> ts_col y" if "x \<in> set DEFAULT_COLUMNS" for x y
    using that last_ts_col [of y] by auto
  then show "c \<notin> ts_col ` set DEFAULT_COLUMNS" and "ts_col c \<notin> set DEFAULT_COLUMNS"
    using assms by blast+
qed

text \<open>
  C9. For each of the four attendance flags \<open>Dinner\<close>, \<open>Pizza\<close>, \<open>Breakfast\<close>, \<open>MRD\<close>:
  after \<open>ensure_attendance_columns\<close> the flag column and its paired timestamp column
  both exist; a flag column that was missing is false in every record and a timestamp
  column that was missing is blank in every record; every column the roster already had
  is still there, in the same position, with the same cells, and the number of records
  is the same.
\<close>

theorem ensure_attendance_columns_creates_missing:
  assumes "c \<in> set DEFAULT_COLUMNS"
  shows "has_column (ensure_attendance_columns df) c \<and>
         has_column (ensure_attendance_columns df) (ts_col c) \<and>
         (\<not> has_column df c \<longrightarrow> (\<forall>i. data (ensure_attendance_columns df) c i = Bool False)) \<and>
         (\<not> has_column df (ts_col c) \<longrightarrow>
            (\<forall>i. data (ensure_attendance_columns df) (ts_col c) i = Str [])) \<and>
         (\<forall>x. has_column df x \<longrightarrow>
            has_column (ensure_attendance_columns df) x \<and> data (ensure_attendance_columns df) x = data df x) \<and>
         take (length (columns df)) (columns (ensure_attendance_columns df)) = columns df \<and>
         nrows (ensure_attendance_columns df) = nrows df"
proof -
  have 1: "has_column (ensure_attendance_columns df) c \<and> has_column (ensure_attendance_columns df) (ts_col c)"
    using assms by (simp add: ensure_attendance_columns_def has_column_ensure_loop)
  have 2: "\<not> has_column df c \<longrightarrow> (\<forall>i. data (ensure_attendance_columns df) c i = Bool False)"
    using assms DEFAULT_COLUMNS_no_ts(1) [OF assms]
    by (simp add: ensure_attendance_columns_def ensure_loop_new_flag)
  have 3: "\<not> has_column df (ts_col c) \<longrightarrow> (\<forall>i. data (ensure_attendance_columns df) (ts_col c) i = Str [])"
    using assms DEFAULT_COLUMNS_no_ts(2) [OF assms]
    by (simp add: ensure_attendance_columns_def ensure_loop_new_ts)
  have 4: "\<forall>x. has_column df x \<longrightarrow>
            has_column (ensure_attendance_columns df) x \<and> data (ensure_attendance_columns df) x = data df x"
    by (auto simp: ensure_attendance_columns_def has_column_ensure_loop ensure_loop_existing)
  obtain ys where "columns (ensure_attendance_columns df) = columns df @ ys"
    unfolding ensure_attendance_columns_def using columns_ensure_loop by blast
  then have 5: "take (length (columns df)) (columns (ensure_attendance_columns df)) = columns df"
    by simp
  have 6: "nrows (ensure_attendance_columns df) = nrows df"
    by (simp add: ensure_attendance_columns_def nrows_ensure_loop)
  show ?thesis using 1 2 3 4 5 6 by blast
qed

theorem ensure_attendance_columns_creates_missing_witness:
  "\<not> has_column roster_blank_emails ''MRD'' \<and> \<not> has_column roster_blank_emails ''MRD_ts'' \<and>
   has_column roster_blank_emails ''Name'' \<and>
   has_column (ensure_attendance_columns roster_blank_emails) ''MRD'' \<and>
   has_column (ensure_attendance_columns roster_blank_emails) ''MRD_ts'' \<and>
   data (ensure_attendance_columns roster_blank_emails) ''MRD'' 1 = Bool False \<and>
   data (ensure_attendance_columns roster_blank_emails) ''MRD_ts'' 1 = Str [] \<and>
   data (ensure_attendance_columns roster_blank_emails) ''Name'' 1 = Str ''Bob'' \<and>
   nrows (ensure_attendance_columns roster_blank_emails) = 2"
proof -
  have c: "''MRD'' \<in> set DEFAULT_COLUMNS" by (simp add: DEFAULT_COLUMNS_def)
  have h: "\<not> has_column roster_blank_emails ''MRD''" "\<not> has_column roster_blank_emails ''MRD_ts''"
    "has_column roster_blank_emails ''Name''"
    by (simp_all add: roster_blank_emails_def has_column_def)
  have d: "data roster_blank_emails ''Name'' 1 = Str ''Bob''" "nrows roster_blank_emails = 2"
    by (simp_all add: roster_blank_emails_def)
  show ?thesis
    using h d ensure_attendance_columns_creates_missing [OF c, of roster_blank_emails]
    by (simp add: ts_col_def)
qed

section \<open>Properties of \<open>decode_qr_from_bytes\<close>\<close>

lemma decode_first_decoder_wins:
  "cv2 L = Some detect \<Longrightarrow> detect b = Inr d \<Longrightarrow> d \<noteq> [] \<Longrightarrow> decode_qr_from_bytes L b = Inr (Some d)"
  by (simp add: decode_qr_from_bytes_def try_cv2_def)

lemma decode_no_decoder:
  "try_cv2 L b = None \<Longrightarrow> pyzbar_decode L = None \<Longrightarrow> decode_qr_from_bytes L b = Inr None"
  by (simp add: decode_qr_from_bytes_def)

lemma decode_fallback_returns:
  "try_cv2 L b = None \<Longrightarrow> pyzbar_decode L = Some dec \<Longrightarrow> Image_open L b = Inr img \<Longrightarrow>
   dec img = Inr ds \<Longrightarrow> \<exists>r. decode_qr_from_bytes L b = Inr r"
  by (simp add: decode_qr_from_bytes_def split: list.splits sum.splits)

lemma decode_fallback_raises:
  "try_cv2 L b = None \<Longrightarrow> pyzbar_decode L = Some dec \<Longrightarrow> Image_open L b = Inl e \<Longrightarrow>
   decode_qr_from_bytes L b = Inl e"
  by (simp add: decode_qr_from_bytes_def)

text \<open>
  C7. The claim asks that \<open>decode_qr_from_bytes\<close> return a payload or \<open>None\<close> for every
  byte string and never let an exception reach the caller. The exceptions of the first
  decoder are caught, but the fallback opens the image outside any \<open>try\<close>: on bytes that
  are not an image, with \<open>pyzbar\<close> installed, the exception of \<open>Image.open\<close> leaves the
  function.
\<close>

theorem decode_qr_from_bytes_propagates_exception:
  "try_cv2 libs_pyzbar ''not an image'' = None \<and>
   decode_qr_from_bytes libs_pyzbar ''not an image'' = Inl ''PIL.UnidentifiedImageError''"
proof -
  have 1: "try_cv2 libs_pyzbar ''not an image'' = None"
    by (simp add: try_cv2_def libs_pyzbar_def)
  have 2: "pyzbar_decode libs_pyzbar = Some (\<lambda>img. Inr [])"
    and 3: "Image_open libs_pyzbar ''not an image'' = Inl ''PIL.UnidentifiedImageError''"
    by (simp_all add: libs_pyzbar_def)
  show ?thesis using 1 decode_fallback_raises [OF 1 2 3] by simp
qed

end
